theory Spec2Isabelle
  imports Main "HOL-Library.Word"
begin

section \<open>Go values handled by the widget shim\<close>

text \<open>
  The file \<^verbatim>\<open>widget/simple_widget.go\<close> declares the interface \<^verbatim>\<open>SimpleWidget\<close> and the
  struct \<^verbatim>\<open>SimpleWidgetBase\<close> with its methods \<^verbatim>\<open>Render\<close>, \<^verbatim>\<open>CreateRenderer\<close>,
  \<^verbatim>\<open>SetState\<close>, \<^verbatim>\<open>SetStateSafe\<close>, \<^verbatim>\<open>ExtendBaseWidget\<close>, \<^verbatim>\<open>super\<close> and \<^verbatim>\<open>getImpl\<close>.
  Each method is embedded below under its own name as a function on an explicit state.

  \<^verbatim>\<open>fyne.Size\<close> is a struct of two \<^verbatim>\<open>float32\<close> fields. The shim never computes with them,
  so a \<^verbatim>\<open>float32\<close> is carried as its 32-bit pattern.
\<close>

type_synonym float32 = "32 word"

record Size =
  Width :: float32
  Height :: float32

text \<open>
  A non-nil Go interface value is a dynamic type together with a pointer. The nil interface
  value is \<open>None\<close> wherever an interface value may be nil (\<open>iface option\<close>). Values of the
  interface types \<^verbatim>\<open>SimpleWidget\<close>, \<^verbatim>\<open>fyne.CanvasObject\<close> and \<^verbatim>\<open>sync.Locker\<close> are all of this
  shape.
\<close>

datatype iface = Iface (dyntype: string) (ptr: nat)

text \<open>
  A method of a method set: its name and its signature (parameter and result names dropped,
  as Go compares signatures). An interface is the list of methods it asks for.
\<close>

type_synonym msig = "string \<times> string"

text \<open>
  The declarations of the host toolkit (packages \<^verbatim>\<open>fyne\<close> and \<^verbatim>\<open>fyne/widget\<close>) are imported by
  the source and are not part of it. The two facts about them that the shim depends on are
  parameters: the methods asked for by the interface \<^verbatim>\<open>fyne.Widget\<close>, and the method set of
  \<^verbatim>\<open>*widget.BaseWidget\<close>, the struct embedded in \<^verbatim>\<open>SimpleWidgetBase\<close>.
\<close>

record host =
  Widget_methods :: "msig list"
  BaseWidget_methods :: "msig list"

text \<open>The signature of \<^verbatim>\<open>Render\<close>, as written in the interface and on the struct.\<close>

definition Render_method :: msig where
  "Render_method = (''Render'', ''func() ([]fyne.CanvasObject, func(fyne.Size))'')"

text \<open>
  \<^verbatim>\<open>type SimpleWidget interface { fyne.Widget; Render() (...) }\<close>: the methods of the embedded
  interface and \<^verbatim>\<open>Render\<close>.
\<close>

definition SimpleWidget_methods :: "host \<Rightarrow> msig list" where
  "SimpleWidget_methods h = Widget_methods h @ [Render_method]"

text \<open>The methods the source declares with receiver \<^verbatim>\<open>*SimpleWidgetBase\<close>.\<close>

definition SimpleWidgetBase_declared :: "msig list" where
  "SimpleWidgetBase_declared =
     [Render_method,
      (''CreateRenderer'', ''func() fyne.WidgetRenderer''),
      (''SetState'', ''func(func())''),
      (''SetStateSafe'', ''func(sync.Locker, func())''),
      (''ExtendBaseWidget'', ''func(SimpleWidget)''),
      (''super'', ''func() SimpleWidget''),
      (''getImpl'', ''func() SimpleWidget'')]"

text \<open>
  The method set of \<^verbatim>\<open>*SimpleWidgetBase\<close>: the declared methods, and the methods promoted from
  the embedded \<^verbatim>\<open>widget.BaseWidget\<close> whose name no declared method shadows (the source's own
  \<^verbatim>\<open>ExtendBaseWidget\<close> shadows the host's).
\<close>

definition SimpleWidgetBase_methods :: "host \<Rightarrow> msig list" where
  "SimpleWidgetBase_methods h =
     SimpleWidgetBase_declared @
     filter (\<lambda>m. fst m \<notin> set (map fst SimpleWidgetBase_declared)) (BaseWidget_methods h)"

text \<open>A method set implements an interface when it has every method the interface asks for.\<close>

definition implements :: "msig list \<Rightarrow> msig list \<Rightarrow> bool" where
  "implements ms wanted = list_all (\<lambda>m. m \<in> set ms) wanted"

text \<open>The name of the dynamic type of the receiver \<^verbatim>\<open>s\<close>.\<close>

definition base_type :: string where
  "base_type = ''*widget.SimpleWidgetBase''"

section \<open>State, calls that leave the file, and outcomes\<close>

text \<open>
  Calls that leave the source file are recorded, in order, as events:
  \<^item> \<open>BaseExtend wid\<close>: \<^verbatim>\<open>s.BaseWidget.ExtendBaseWidget(wid)\<close>, the host toolkit's registration;
  \<^item> \<open>Refresh w\<close>: \<^verbatim>\<open>w.Refresh()\<close> on a resolved delegate;
  \<^item> \<open>RenderCall w\<close>: \<^verbatim>\<open>w.Render()\<close> dispatched on a resolved delegate;
  \<^item> \<open>LockerLock m\<close>, \<open>LockerUnlock m\<close>: \<^verbatim>\<open>m.Lock()\<close> and \<^verbatim>\<open>m.Unlock()\<close> on the caller's
    \<^verbatim>\<open>sync.Locker\<close>.
  These calls are taken to return; what the toolkit or the locker does inside them is not
  part of this file.
\<close>

datatype event =
    BaseExtend "iface option"
  | Refresh iface
  | RenderCall iface
  | LockerLock iface
  | LockerUnlock iface

text \<open>
  \<^verbatim>\<open>sync.RWMutex\<close>, as far as a sequential run sees it: the number of read locks held and
  whether the write lock is held. An acquisition is granted (a contended one waits, which is
  not a result the caller can see). The source releases a lock only after taking it, so
  \<open>RUnlock\<close> is never applied to a mutex without readers.
\<close>

record RWMutex =
  readers :: nat
  writer :: bool

definition RLock :: "RWMutex \<Rightarrow> RWMutex" where
  "RLock l = l\<lparr>readers := readers l + 1\<rparr>"

definition RUnlock :: "RWMutex \<Rightarrow> RWMutex" where
  "RUnlock l = l\<lparr>readers := readers l - 1\<rparr>"

definition Lock :: "RWMutex \<Rightarrow> RWMutex" where
  "Lock l = l\<lparr>writer := True\<rparr>"

definition Unlock :: "RWMutex \<Rightarrow> RWMutex" where
  "Unlock l = l\<lparr>writer := False\<rparr>"

text \<open>
  The state a method runs in: the struct \<^verbatim>\<open>SimpleWidgetBase\<close> at address \<open>self\<close> with its
  fields \<open>propertyLock\<close> and \<open>impl\<close> (the embedded \<^verbatim>\<open>BaseWidget\<close> is only ever called, see
  \<open>BaseExtend\<close>); \<open>props\<close>, everything else a callback may read and write (the properties of
  the derived widget); and \<open>trace\<close>, the events so far, oldest first.
\<close>

record 'u state =
  self :: nat
  propertyLock :: RWMutex
  impl :: "iface option"
  props :: 'u
  trace :: "event list"

text \<open>
  A call either returns a value or panics; in both cases it leaves a state behind (a panic
  does not undo what was done before it).
\<close>

datatype fault = TypeAssertion | NilDereference | UserPanic string

datatype ('a, 's) outcome = Returned 'a 's | Panicked fault 's

fun after :: "('a, 's) outcome \<Rightarrow> 's" where
  "after (Returned _ s) = s"
| "after (Panicked _ s) = s"

text \<open>
  Code supplied by the caller: a \<^verbatim>\<open>func()\<close> closure, and the layout function
  \<^verbatim>\<open>func(size fyne.Size)\<close> returned by \<^verbatim>\<open>Render\<close>. Both run on the whole state.
\<close>

type_synonym 'u callback = "'u state \<Rightarrow> (unit, 'u state) outcome"

type_synonym 'u layout = "Size \<Rightarrow> 'u callback"

type_synonym 'u render = "'u state \<Rightarrow> (iface list \<times> 'u layout, 'u state) outcome"

definition emit :: "event \<Rightarrow> 'u state \<Rightarrow> 'u state" where
  "emit e s = s\<lparr>trace := trace s @ [e]\<rparr>"

text \<open>Calling a \<^verbatim>\<open>func()\<close> value: a nil function value panics.\<close>

definition invoke :: "'u callback option \<Rightarrow> 'u callback" where
  "invoke f s = (case f of None \<Rightarrow> Panicked NilDereference s | Some g \<Rightarrow> g s)"

section \<open>The methods of \<^verbatim>\<open>SimpleWidgetBase\<close>\<close>

text \<open>
  \<^verbatim>\<open>func (s *SimpleWidgetBase) Render() (objects []fyne.CanvasObject, layout func(size fyne.Size)) {
      return nil, func(fyne.Size) {}
  }\<close>
  The nil slice is the empty list.
\<close>

definition Render :: "'u render" where
  "Render s = Returned ([], \<lambda>size t. Returned () t) s"

text \<open>
  \<^verbatim>\<open>func (s *SimpleWidgetBase) getImpl() SimpleWidget {
      s.propertyLock.RLock()
      impl := s.impl
      s.propertyLock.RUnlock()
      if impl == nil { return nil }
      return impl
  }\<close>
\<close>

definition getImpl :: "'u state \<Rightarrow> iface option \<times> 'u state" where
  "getImpl s =
     (let s1 = s\<lparr>propertyLock := RLock (propertyLock s)\<rparr>;
          i = impl s1;
          s2 = s1\<lparr>propertyLock := RUnlock (propertyLock s1)\<rparr>
      in (if i = None then None else i, s2))"

text \<open>
  \<^verbatim>\<open>func (s *SimpleWidgetBase) super() SimpleWidget {
      impl := s.getImpl()
      if impl == nil {
          var x interface{} = s
          return x.(SimpleWidget)
      }
      return impl
  }\<close>
  \<^verbatim>\<open>x\<close> holds \<^verbatim>\<open>s\<close>, whose static type is \<^verbatim>\<open>*SimpleWidgetBase\<close>: that is the dynamic type the
  assertion tests, whatever struct embeds the base. The single-value form of the assertion
  panics when the type does not implement the interface.
\<close>

definition super :: "host \<Rightarrow> 'u state \<Rightarrow> (iface, 'u state) outcome" where
  "super h s =
     (case getImpl s of
        (None, s1) \<Rightarrow>
          if implements (SimpleWidgetBase_methods h) (SimpleWidget_methods h)
          then Returned (Iface base_type (self s1)) s1
          else Panicked TypeAssertion s1
      | (Some d, s1) \<Rightarrow> Returned d s1)"

text \<open>
  \<^verbatim>\<open>s.BaseWidget.ExtendBaseWidget(wid)\<close> is a call into the host toolkit. The call as the rest of
  this theory takes it: it is recorded and returns.
\<close>

definition BaseWidget_ExtendBaseWidget :: "iface option \<Rightarrow> 'u callback" where
  "BaseWidget_ExtendBaseWidget wid s = Returned () (emit (BaseExtend wid) s)"

text \<open>
  \<^verbatim>\<open>func (s *SimpleWidgetBase) ExtendBaseWidget(wid SimpleWidget) {
      impl := s.getImpl()
      if impl != nil { return }
      s.BaseWidget.ExtendBaseWidget(wid)
      s.propertyLock.Lock()
      defer s.propertyLock.Unlock()
      s.impl = wid
  }\<close>
  The statements in their order, with the host's registration as the parameter
  \<open>base_extend\<close>: it runs in the state \<^verbatim>\<open>getImpl\<close> left, and the lock, the store and the
  deferred unlock (which runs when the function returns, after the store) act on the state
  it leaves. Were it to panic, none of them would run.
\<close>

definition ExtendBaseWidget_with ::
  "(iface option \<Rightarrow> 'u callback) \<Rightarrow> iface option \<Rightarrow> 'u callback" where
  "ExtendBaseWidget_with base_extend wid s =
     (case getImpl s of
        (Some d, s1) \<Rightarrow> Returned () s1
      | (None, s1) \<Rightarrow>
          (case base_extend wid s1 of
             Panicked e s2 \<Rightarrow> Panicked e s2
           | Returned _ s2 \<Rightarrow>
               (let s3 = s2\<lparr>propertyLock := Lock (propertyLock s2)\<rparr>;
                    s4 = s3\<lparr>impl := wid\<rparr>;
                    s5 = s4\<lparr>propertyLock := Unlock (propertyLock s4)\<rparr>
                in Returned () s5)))"

text \<open>The method with the host's registration as it is taken throughout.\<close>

definition ExtendBaseWidget :: "iface option \<Rightarrow> 'u callback" where
  "ExtendBaseWidget wid s = ExtendBaseWidget_with BaseWidget_ExtendBaseWidget wid s"

text \<open>
  \<^verbatim>\<open>wdgt.Render()\<close> on an interface value is dispatched on its dynamic type. For
  \<^verbatim>\<open>*SimpleWidgetBase\<close> the method is the \<^verbatim>\<open>Render\<close> above. For any other type it is the type's
  own \<^verbatim>\<open>Render\<close> when it declares one (\<open>overrides w = Some r\<close>), and otherwise the method
  promoted from the embedded base, again the \<^verbatim>\<open>Render\<close> above. The call is recorded before
  the method runs.
\<close>

definition Render_of :: "(iface \<Rightarrow> 'u render option) \<Rightarrow> iface \<Rightarrow> 'u render" where
  "Render_of overrides w =
     (if dyntype w = base_type then Render
      else case overrides w of None \<Rightarrow> Render | Some r \<Rightarrow> r)"

definition call_Render :: "(iface \<Rightarrow> 'u render option) \<Rightarrow> iface \<Rightarrow> 'u render" where
  "call_Render overrides w s = Render_of overrides w (emit (RenderCall w) s)"

text \<open>
  \<^verbatim>\<open>func (s *SimpleWidgetBase) CreateRenderer() fyne.WidgetRenderer {
      wdgt := s.super()
      objs, layout := wdgt.Render()
      return newSimpleRenderer(wdgt, objs, layout)
  }\<close>
  \<^verbatim>\<open>newSimpleRenderer\<close> is declared in another file of the package; it is the parameter
  \<open>newSimpleRenderer\<close>, a call like any other.
\<close>

definition CreateRenderer ::
  "host \<Rightarrow> (iface \<Rightarrow> 'u render option) \<Rightarrow>
   (iface \<Rightarrow> iface list \<Rightarrow> 'u layout \<Rightarrow> 'u state \<Rightarrow> ('r, 'u state) outcome) \<Rightarrow>
   'u state \<Rightarrow> ('r, 'u state) outcome" where
  "CreateRenderer h overrides newSimpleRenderer s =
     (case super h s of
        Panicked e s1 \<Rightarrow> Panicked e s1
      | Returned wdgt s1 \<Rightarrow>
          (case call_Render overrides wdgt s1 of
             Panicked e s2 \<Rightarrow> Panicked e s2
           | Returned (objs, layout) s2 \<Rightarrow> newSimpleRenderer wdgt objs layout s2))"

text \<open>
  \<^verbatim>\<open>func (s *SimpleWidgetBase) SetState(setState func()) {
      setState()
      s.super().Refresh()
  }\<close>
\<close>

definition SetState :: "host \<Rightarrow> 'u callback option \<Rightarrow> 'u callback" where
  "SetState h setState s =
     (case invoke setState s of
        Panicked e s1 \<Rightarrow> Panicked e s1
      | Returned _ s1 \<Rightarrow>
          (case super h s1 of
             Panicked e s2 \<Rightarrow> Panicked e s2
           | Returned wdgt s2 \<Rightarrow> Returned () (emit (Refresh wdgt) s2)))"

text \<open>
  \<^verbatim>\<open>func (s *SimpleWidgetBase) SetStateSafe(m sync.Locker, setState func()) {
      m.Lock()
      setState()
      m.Unlock()
      s.super().Refresh()
  }\<close>
  A method call on the nil interface value panics.
\<close>

definition SetStateSafe :: "host \<Rightarrow> iface option \<Rightarrow> 'u callback option \<Rightarrow> 'u callback" where
  "SetStateSafe h m setState s =
     (case m of
        None \<Rightarrow> Panicked NilDereference s
      | Some l \<Rightarrow>
          (case invoke setState (emit (LockerLock l) s) of
             Panicked e s1 \<Rightarrow> Panicked e s1
           | Returned _ s1 \<Rightarrow>
               (case super h (emit (LockerUnlock l) s1) of
                  Panicked e s2 \<Rightarrow> Panicked e s2
                | Returned wdgt s2 \<Rightarrow> Returned () (emit (Refresh wdgt) s2))))"

section \<open>Reading a trace\<close>

text \<open>
  Whether the locker \<open>m\<close> is held at the end of a trace: its last event on \<open>m\<close> is a
  \<open>LockerLock\<close>.
\<close>

definition held :: "iface \<Rightarrow> event list \<Rightarrow> bool" where
  "held m tr =
     foldl (\<lambda>b e. if e = LockerLock m then True else if e = LockerUnlock m then False else b)
       False tr"

text \<open>The delegates the host toolkit was handed, in order (calls with nil hand it none).\<close>

fun registrations :: "event list \<Rightarrow> iface list" where
  "registrations [] = []"
| "registrations (BaseExtend (Some d) # tr) = d # registrations tr"
| "registrations (_ # tr) = registrations tr"

text \<open>The host-toolkit registration calls in a trace, with nil ones.\<close>

definition host_calls :: "event list \<Rightarrow> iface option list" where
  "host_calls tr = concat (map (\<lambda>e. case e of BaseExtend w \<Rightarrow> [w] | _ \<Rightarrow> []) tr)"

text \<open>The refresh notifications in a trace.\<close>

definition refreshes :: "event list \<Rightarrow> iface list" where
  "refreshes tr = concat (map (\<lambda>e. case e of Refresh w \<Rightarrow> [w] | _ \<Rightarrow> []) tr)"

text \<open>Several calls of \<^verbatim>\<open>ExtendBaseWidget\<close> in a row, with the state the last one leaves.\<close>

fun extend_all :: "iface option list \<Rightarrow> 'u state \<Rightarrow> 'u state" where
  "extend_all [] s = s"
| "extend_all (w # ws) s = extend_all ws (after (ExtendBaseWidget w s))"

section \<open>Sequences of operations\<close>

text \<open>
  The exported methods of the base, as operations a client may perform one after the
  other. \<open>run_op\<close> gives the state an operation leaves, whether it returns or panics.
\<close>

datatype 'u op =
    OpExtendBaseWidget "iface option"
  | OpSetState "'u callback option"
  | OpSetStateSafe "iface option" "'u callback option"
  | OpCreateRenderer
  | OpRender

fun run_op ::
  "host \<Rightarrow> (iface \<Rightarrow> 'u render option) \<Rightarrow>
   (iface \<Rightarrow> iface list \<Rightarrow> 'u layout \<Rightarrow> 'u state \<Rightarrow> ('r, 'u state) outcome) \<Rightarrow>
   'u op \<Rightarrow> 'u state \<Rightarrow> 'u state" where
  "run_op h ov mk (OpExtendBaseWidget wid) s = after (ExtendBaseWidget wid s)"
| "run_op h ov mk (OpSetState f) s = after (SetState h f s)"
| "run_op h ov mk (OpSetStateSafe m f) s = after (SetStateSafe h m f s)"
| "run_op h ov mk OpCreateRenderer s = after (CreateRenderer h ov mk s)"
| "run_op h ov mk OpRender s = after (Render s)"

fun run_ops ::
  "host \<Rightarrow> (iface \<Rightarrow> 'u render option) \<Rightarrow>
   (iface \<Rightarrow> iface list \<Rightarrow> 'u layout \<Rightarrow> 'u state \<Rightarrow> ('r, 'u state) outcome) \<Rightarrow>
   'u op list \<Rightarrow> 'u state \<Rightarrow> 'u state" where
  "run_ops h ov mk [] s = s"
| "run_ops h ov mk (x # xs) s = run_ops h ov mk xs (run_op h ov mk x s)"

text \<open>
  The field \<open>impl\<close> is unexported, and in the package only \<^verbatim>\<open>ExtendBaseWidget\<close> assigns it.
  Code supplied by a client can therefore change it only through that method, which never
  replaces a delegate that is set. \<open>keeps_delegate\<close> says so of a piece of client code.
\<close>

definition keeps_delegate :: "('u state \<Rightarrow> ('a, 'u state) outcome) \<Rightarrow> bool" where
  "keeps_delegate c = (\<forall>s d. impl s = Some d \<longrightarrow> impl (after (c s)) = Some d)"

fun op_keeps_delegate :: "'u op \<Rightarrow> bool" where
  "op_keeps_delegate (OpSetState (Some f)) = keeps_delegate f"
| "op_keeps_delegate (OpSetStateSafe m (Some f)) = keeps_delegate f"
| "op_keeps_delegate _ = True"

definition client_keeps_delegate ::
  "(iface \<Rightarrow> 'u render option) \<Rightarrow>
   (iface \<Rightarrow> iface list \<Rightarrow> 'u layout \<Rightarrow> 'u state \<Rightarrow> ('r, 'u state) outcome) \<Rightarrow> bool" where
  "client_keeps_delegate ov mk =
     ((\<forall>w r. ov w = Some r \<longrightarrow> keeps_delegate r) \<and>
      (\<forall>w objs l. keeps_delegate (mk w objs l)))"

section \<open>Sample inputs\<close>

text \<open>
  The host the source is built against: \<^verbatim>\<open>fyne.Widget\<close> asks for the methods of
  \<^verbatim>\<open>fyne.CanvasObject\<close> and for \<^verbatim>\<open>CreateRenderer\<close>; \<^verbatim>\<open>*widget.BaseWidget\<close> has
  \<^verbatim>\<open>ExtendBaseWidget\<close>, which the source calls, and the methods of \<^verbatim>\<open>fyne.CanvasObject\<close>.
\<close>

definition canvas_methods :: "msig list" where
  "canvas_methods =
     [(''MinSize'', ''func() fyne.Size''),
      (''Move'', ''func(fyne.Position)''),
      (''Position'', ''func() fyne.Position''),
      (''Resize'', ''func(fyne.Size)''),
      (''Size'', ''func() fyne.Size''),
      (''Hide'', ''func()''),
      (''Visible'', ''func() bool''),
      (''Show'', ''func()''),
      (''Refresh'', ''func()'')]"

definition full_host :: host where
  "full_host =
     \<lparr>Widget_methods = canvas_methods @ [(''CreateRenderer'', ''func() fyne.WidgetRenderer'')],
      BaseWidget_methods = (''ExtendBaseWidget'', ''func(fyne.Widget)'') # canvas_methods\<rparr>"

definition fresh :: "nat state" where
  "fresh = \<lparr>self = 1, propertyLock = \<lparr>readers = 0, writer = False\<rparr>, impl = None,
            props = 0, trace = []\<rparr>"

definition button :: iface where
  "button = Iface ''*example.Button'' 1"

definition label :: iface where
  "label = Iface ''*example.Label'' 2"

definition mu :: iface where
  "mu = Iface ''*sync.Mutex'' 3"

text \<open>Client closures: one that counts, one that panics after counting, one that registers.\<close>

definition bump :: "nat callback" where
  "bump s = Returned () (s\<lparr>props := props s + 1\<rparr>)"

definition boom :: "nat callback" where
  "boom s = Panicked (UserPanic ''boom'') (s\<lparr>props := props s + 1\<rparr>)"

definition reregister :: "nat callback" where
  "reregister s = ExtendBaseWidget (Some label) s"

text \<open>A client \<^verbatim>\<open>Render\<close> for the button, and a renderer constructor that keeps its arguments.\<close>

definition button_Render :: "nat render" where
  "button_Render s = Returned ([label], \<lambda>size t. Returned () (t\<lparr>props := props t + 2\<rparr>)) s"

definition button_only :: "iface \<Rightarrow> nat render option" where
  "button_only w = (if w = button then Some button_Render else None)"

definition keep_args ::
  "iface \<Rightarrow> iface list \<Rightarrow> nat layout \<Rightarrow> nat state \<Rightarrow> (iface \<times> iface list, nat state) outcome" where
  "keep_args w objs l s = Returned (w, objs) s"

section \<open>Basic facts\<close>

lemma getImpl_eq: "getImpl s = (impl s, s)"
  by (simp add: getImpl_def RLock_def RUnlock_def Let_def)

lemma after_emit_impl [simp]: "impl (emit e s) = impl s"
  by (simp add: emit_def)

lemma self_emit [simp]: "self (emit e s) = self s"
  by (simp add: emit_def)

lemma trace_emit [simp]: "trace (emit e s) = trace s @ [e]"
  by (simp add: emit_def)

lemma super_registered: "impl s = Some d \<Longrightarrow> super h s = Returned d s"
  by (simp add: super_def getImpl_eq)

lemma super_unset:
  "impl s = None \<Longrightarrow>
   super h s =
     (if implements (SimpleWidgetBase_methods h) (SimpleWidget_methods h)
      then Returned (Iface base_type (self s)) s else Panicked TypeAssertion s)"
  by (simp add: super_def getImpl_eq)

lemma super_state: "after (super h s) = s"
  by (cases "impl s") (simp_all add: super_unset super_registered)

lemma super_Returned_state: "super h s = Returned w t \<Longrightarrow> t = s"
  using super_state [of h s] by simp

lemma super_emit:
  "super h s = Returned w t \<Longrightarrow> super h (emit e s) = Returned w (emit e s)"
  by (cases "impl s") (auto simp: super_unset super_registered split: if_splits)

lemma ExtendBaseWidget_with_set:
  "impl s = Some d \<Longrightarrow> ExtendBaseWidget_with base_extend wid s = Returned () s"
  by (simp add: ExtendBaseWidget_with_def getImpl_eq)

lemma ExtendBaseWidget_with_unset:
  "impl s = None \<Longrightarrow> base_extend wid s = Returned u s1 \<Longrightarrow>
   ExtendBaseWidget_with base_extend wid s =
     Returned () (s1\<lparr>impl := wid, propertyLock := Unlock (Lock (propertyLock s1))\<rparr>)"
  by (simp add: ExtendBaseWidget_with_def getImpl_eq Let_def)

lemma ExtendBaseWidget_set: "impl s = Some d \<Longrightarrow> ExtendBaseWidget wid s = Returned () s"
  by (simp add: ExtendBaseWidget_def ExtendBaseWidget_with_set)

lemma ExtendBaseWidget_unset:
  "impl s = None \<Longrightarrow>
   ExtendBaseWidget wid s =
     Returned () ((emit (BaseExtend wid) s)\<lparr>impl := wid, propertyLock := Unlock (Lock (propertyLock s))\<rparr>)"
  by (simp add: ExtendBaseWidget_def BaseWidget_ExtendBaseWidget_def ExtendBaseWidget_with_def
      getImpl_eq Let_def emit_def)

lemma full_host_implements:
  "implements (SimpleWidgetBase_methods full_host) (SimpleWidget_methods full_host)"
  by (simp add: implements_def SimpleWidgetBase_methods_def SimpleWidget_methods_def
      SimpleWidgetBase_declared_def full_host_def canvas_methods_def Render_method_def)

section \<open>Resolving the delegate and the default contents\<close>

text \<open>
  Claim C4. The default \<^verbatim>\<open>Render\<close> of \<^verbatim>\<open>SimpleWidgetBase\<close> returns the empty list of canvas
  objects and a layout function that, called with any size in any state, returns and
  leaves that state as it was; the call itself changes nothing either.
\<close>

theorem Render_default:
  "\<exists>layout. Render s = Returned ([], layout) s \<and> (\<forall>size t. layout size t = Returned () t)"
  by (simp add: Render_def)

text \<open>
  Claim C2. When a delegate \<open>d\<close> is stored, \<^verbatim>\<open>super\<close> returns \<open>d\<close>; this holds in particular
  in the state a call \<^verbatim>\<open>ExtendBaseWidget(d)\<close> leaves when none was stored. When none is stored
  and the method set of \<^verbatim>\<open>*SimpleWidgetBase\<close> implements \<^verbatim>\<open>SimpleWidget\<close>, \<^verbatim>\<open>super\<close> returns the
  base object itself: the interface value of dynamic type \<^verbatim>\<open>*SimpleWidgetBase\<close> pointing at
  the receiver. In each case the state is left as it was.
\<close>

theorem super_resolves:
  "(impl s = Some d \<longrightarrow> super h s = Returned d s) \<and>
   (impl s = None \<longrightarrow> super h (after (ExtendBaseWidget (Some d) s)) =
        Returned d (after (ExtendBaseWidget (Some d) s))) \<and>
   (impl s = None \<and> implements (SimpleWidgetBase_methods h) (SimpleWidget_methods h) \<longrightarrow>
      super h s = Returned (Iface base_type (self s)) s)"
  by (simp add: super_registered super_unset ExtendBaseWidget_unset)

text \<open>The theorem at sample inputs.\<close>

theorem super_resolves_witness:
  "impl (fresh\<lparr>impl := Some button\<rparr>) = Some button \<and>
   super full_host (fresh\<lparr>impl := Some button\<rparr>) = Returned button (fresh\<lparr>impl := Some button\<rparr>) \<and>
   impl fresh = None \<and>
   implements (SimpleWidgetBase_methods full_host) (SimpleWidget_methods full_host) \<and>
   super full_host (after (ExtendBaseWidget (Some button) fresh)) =
     Returned button (fresh\<lparr>impl := Some button, trace := [BaseExtend (Some button)]\<rparr>) \<and>
   super full_host fresh = Returned (Iface base_type 1) fresh"
proof -
  have h1: "impl (fresh\<lparr>impl := Some button\<rparr>) = Some button" by simp
  have h2: "impl fresh = None" by (simp add: fresh_def)
  have h3: "implements (SimpleWidgetBase_methods full_host) (SimpleWidget_methods full_host)"
    by (rule full_host_implements)
  have e: "after (ExtendBaseWidget (Some button) fresh) =
      fresh\<lparr>impl := Some button, trace := [BaseExtend (Some button)]\<rparr>"
    by (simp add: ExtendBaseWidget_unset fresh_def emit_def Lock_def Unlock_def)
  show ?thesis
    using h1 h2 h3 e
      super_resolves [where s = "fresh\<lparr>impl := Some button\<rparr>" and d = button and h = full_host]
      super_resolves [where s = fresh and d = button and h = full_host]
    by (simp add: fresh_def)
qed

section \<open>The delegate, once set, stays\<close>

lemma keeps_delegateD: "keeps_delegate c \<Longrightarrow> impl s = Some d \<Longrightarrow> impl (after (c s)) = Some d"
  by (simp add: keeps_delegate_def)

lemma invoke_keeps:
  assumes "op_keeps_delegate (OpSetState f)" and "impl s = Some d"
  shows "impl (after (invoke f s)) = Some d"
proof (cases f)
  case None
  then show ?thesis using assms by (simp add: invoke_def)
next
  case (Some g)
  then show ?thesis using assms by (simp add: invoke_def keeps_delegateD)
qed

lemma SetState_keeps:
  assumes "op_keeps_delegate (OpSetState f)" and "impl s = Some d"
  shows "impl (after (SetState h f s)) = Some d"
proof (cases "invoke f s")
  case (Returned u s1)
  with invoke_keeps [OF assms] have "impl s1 = Some d" by simp
  then show ?thesis using Returned by (simp add: SetState_def super_registered)
next
  case (Panicked e s1)
  with invoke_keeps [OF assms] show ?thesis by (simp add: SetState_def)
qed

lemma SetStateSafe_keeps:
  assumes "op_keeps_delegate (OpSetStateSafe m f)" and "impl s = Some d"
  shows "impl (after (SetStateSafe h m f s)) = Some d"
proof (cases m)
  case None
  then show ?thesis using assms by (simp add: SetStateSafe_def)
next
  case (Some l)
  have k: "op_keeps_delegate (OpSetState f)" using assms(1) by (cases f) simp_all
  have i: "impl (emit (LockerLock l) s) = Some d" using assms(2) by simp
  show ?thesis
  proof (cases "invoke f (emit (LockerLock l) s)")
    case (Returned u s1)
    with invoke_keeps [OF k i] have "impl (emit (LockerUnlock l) s1) = Some d" by simp
    then show ?thesis using Returned Some by (simp add: SetStateSafe_def super_registered)
  next
    case (Panicked e s1)
    with invoke_keeps [OF k i] show ?thesis using Some by (simp add: SetStateSafe_def)
  qed
qed

lemma Render_keeps: "keeps_delegate Render"
  by (simp add: keeps_delegate_def Render_def)

lemma Render_of_keeps:
  "\<forall>w r. ov w = Some r \<longrightarrow> keeps_delegate r \<Longrightarrow> keeps_delegate (Render_of ov w)"
  by (auto simp: Render_of_def Render_keeps split: option.splits)

lemma CreateRenderer_keeps:
  assumes "client_keeps_delegate ov mk" and "impl s = Some d"
  shows "impl (after (CreateRenderer h ov mk s)) = Some d"
proof -
  have r: "keeps_delegate (Render_of ov d)"
    using assms(1) by (simp add: client_keeps_delegate_def Render_of_keeps)
  have i: "impl (emit (RenderCall d) s) = Some d" using assms(2) by simp
  show ?thesis
  proof (cases "Render_of ov d (emit (RenderCall d) s)")
    case (Returned v s2)
    obtain objs layout where v: "v = (objs, layout)" by (cases v)
    from keeps_delegateD [OF r i] Returned have "impl s2 = Some d" by simp
    moreover have "keeps_delegate (mk d objs layout)"
      using assms(1) by (simp add: client_keeps_delegate_def)
    ultimately have "impl (after (mk d objs layout s2)) = Some d" by (rule keeps_delegateD [rotated])
    then show ?thesis using Returned v assms(2)
      by (simp add: CreateRenderer_def super_registered call_Render_def)
  next
    case (Panicked e s2)
    with keeps_delegateD [OF r i] show ?thesis using assms(2)
      by (simp add: CreateRenderer_def super_registered call_Render_def)
  qed
qed

lemma run_op_keeps:
  assumes "client_keeps_delegate ov mk" and "op_keeps_delegate x" and "impl s = Some d"
  shows "impl (run_op h ov mk x s) = Some d"
proof (cases x)
  case (OpExtendBaseWidget wid)
  then show ?thesis using assms(3) by (simp add: ExtendBaseWidget_set)
next
  case (OpSetState f)
  then show ?thesis using assms by (simp add: SetState_keeps)
next
  case (OpSetStateSafe m f)
  then show ?thesis using assms by (simp add: SetStateSafe_keeps)
next
  case OpCreateRenderer
  then show ?thesis using assms by (simp add: CreateRenderer_keeps)
next
  case OpRender
  then show ?thesis using assms(3) by (simp add: Render_def)
qed

lemma run_ops_keeps:
  assumes "client_keeps_delegate ov mk"
  shows "list_all op_keeps_delegate xs \<Longrightarrow> impl s = Some d \<Longrightarrow> impl (run_ops h ov mk xs s) = Some d"
proof (induction xs arbitrary: s)
  case Nil
  then show ?case by simp
next
  case (Cons x xs)
  then show ?case using assms by (simp add: run_op_keeps)
qed

text \<open>
  Claim C1. Let a first call \<^verbatim>\<open>ExtendBaseWidget(d)\<close> with a non-nil \<open>d\<close> run in a state with
  no delegate. It stores \<open>d\<close>. After any sequence of the exported operations
  (\<^verbatim>\<open>ExtendBaseWidget\<close>, \<^verbatim>\<open>SetState\<close>, \<^verbatim>\<open>SetStateSafe\<close>, \<^verbatim>\<open>CreateRenderer\<close>, \<^verbatim>\<open>Render\<close>, returning
  or panicking) whose client code reaches the unexported field only through these
  operations, the stored delegate is still \<open>d\<close>, \<^verbatim>\<open>super\<close> returns \<open>d\<close>, and a further call
  \<^verbatim>\<open>ExtendBaseWidget(d2)\<close> returns with the state exactly as it was (no event, no change).
  A call with the nil interface value in a state with no delegate stores nil, so it sets
  nothing; the claim is about a delegate that has been set.
\<close>

theorem delegate_first_writer_wins:
  assumes "impl s0 = None"
    and "client_keeps_delegate ov mk"
    and "list_all op_keeps_delegate xs"
  shows "impl (after (ExtendBaseWidget (Some d) s0)) = Some d \<and>
         impl (run_ops h ov mk xs (after (ExtendBaseWidget (Some d) s0))) = Some d \<and>
         super h (run_ops h ov mk xs (after (ExtendBaseWidget (Some d) s0))) =
           Returned d (run_ops h ov mk xs (after (ExtendBaseWidget (Some d) s0))) \<and>
         ExtendBaseWidget d2 (run_ops h ov mk xs (after (ExtendBaseWidget (Some d) s0))) =
           Returned () (run_ops h ov mk xs (after (ExtendBaseWidget (Some d) s0)))"
proof -
  have a: "impl (after (ExtendBaseWidget (Some d) s0)) = Some d"
    using assms(1) by (simp add: ExtendBaseWidget_unset)
  have b: "impl (run_ops h ov mk xs (after (ExtendBaseWidget (Some d) s0))) = Some d"
    using assms(2) assms(3) a by (rule run_ops_keeps)
  show ?thesis using a b by (simp add: super_registered ExtendBaseWidget_set)
qed

lemma keeps_ExtendBaseWidget: "keeps_delegate (ExtendBaseWidget wid)"
  by (simp add: keeps_delegate_def ExtendBaseWidget_set)

lemma keeps_SetState: "keeps_delegate f \<Longrightarrow> keeps_delegate (SetState h (Some f))"
  by (simp add: keeps_delegate_def SetState_keeps)

lemma keeps_SetStateSafe: "keeps_delegate f \<Longrightarrow> keeps_delegate (SetStateSafe h m (Some f))"
  by (simp add: keeps_delegate_def SetStateSafe_keeps)

lemma sample_client_keeps: "client_keeps_delegate button_only keep_args"
  by (simp add: client_keeps_delegate_def button_only_def keeps_delegate_def
      button_Render_def keep_args_def)

text \<open>The theorem at sample inputs.\<close>

theorem delegate_first_writer_wins_witness:
  "impl fresh = None \<and>
   client_keeps_delegate button_only keep_args \<and>
   list_all op_keeps_delegate
     [OpExtendBaseWidget (Some label), OpSetState (Some reregister),
      OpSetStateSafe (Some mu) (Some boom), OpCreateRenderer, OpRender,
      OpExtendBaseWidget None] \<and>
   impl (run_ops full_host button_only keep_args
     [OpExtendBaseWidget (Some label), OpSetState (Some reregister),
      OpSetStateSafe (Some mu) (Some boom), OpCreateRenderer, OpRender,
      OpExtendBaseWidget None] (after (ExtendBaseWidget (Some button) fresh))) = Some button \<and>
   ExtendBaseWidget (Some label) (run_ops full_host button_only keep_args
     [OpExtendBaseWidget (Some label), OpSetState (Some reregister),
      OpSetStateSafe (Some mu) (Some boom), OpCreateRenderer, OpRender,
      OpExtendBaseWidget None] (after (ExtendBaseWidget (Some button) fresh))) =
   Returned () (run_ops full_host button_only keep_args
     [OpExtendBaseWidget (Some label), OpSetState (Some reregister),
      OpSetStateSafe (Some mu) (Some boom), OpCreateRenderer, OpRender,
      OpExtendBaseWidget None] (after (ExtendBaseWidget (Some button) fresh)))"
proof -
  have h1: "impl fresh = None" by (simp add: fresh_def)
  have h2: "client_keeps_delegate button_only keep_args" by (rule sample_client_keeps)
  have h3: "list_all op_keeps_delegate
     [OpExtendBaseWidget (Some label), OpSetState (Some reregister),
      OpSetStateSafe (Some mu) (Some boom), OpCreateRenderer, OpRender,
      OpExtendBaseWidget None]"
    by (simp add: keeps_delegate_def reregister_def boom_def ExtendBaseWidget_set)
  show ?thesis
    using h1 h2 h3 delegate_first_writer_wins [where h = full_host and d = button and ?d2.0 = "Some label", OF h1 h2 h3]
    by simp
qed

section \<open>Traces of the state setters and of registration\<close>

lemma held_snoc:
  "held m (tr @ [e]) =
     (if e = LockerLock m then True else if e = LockerUnlock m then False else held m tr)"
  by (simp add: held_def)

lemma held_append_no_unlock:
  "held m tr \<Longrightarrow> LockerUnlock m \<notin> set evs \<Longrightarrow> held m (tr @ evs)"
proof (induction evs rule: rev_induct)
  case Nil
  then show ?case by simp
next
  case (snoc e evs)
  then have "held m (tr @ evs)" by simp
  moreover have "e \<noteq> LockerUnlock m" using snoc.prems by auto
  ultimately show ?case using held_snoc [of m "tr @ evs" e] by simp
qed

lemma refreshes_snoc:
  "refreshes (tr @ [e]) = refreshes tr @ (case e of Refresh w \<Rightarrow> [w] | _ \<Rightarrow> [])"
  by (simp add: refreshes_def)

lemma host_calls_snoc:
  "host_calls (tr @ [e]) = host_calls tr @ (case e of BaseExtend w \<Rightarrow> [w] | _ \<Rightarrow> [])"
  by (simp add: host_calls_def)

lemma registrations_snoc:
  "registrations (tr @ [BaseExtend w]) =
     registrations tr @ (case w of None \<Rightarrow> [] | Some d \<Rightarrow> [d])"
  by (induction tr rule: registrations.induct) (simp_all split: option.splits)

lemma implements_iff:
  "implements (SimpleWidgetBase_methods h) (SimpleWidget_methods h) \<longleftrightarrow>
     (\<forall>m \<in> set (Widget_methods h).
        m \<in> set SimpleWidgetBase_declared \<or>
        (m \<in> set (BaseWidget_methods h) \<and> fst m \<notin> fst ` set SimpleWidgetBase_declared))"
  by (auto simp: implements_def SimpleWidgetBase_methods_def SimpleWidget_methods_def
      list_all_iff SimpleWidgetBase_declared_def)

lemma canvas_host_implements:
  assumes "set (Widget_methods h) \<subseteq>
             set canvas_methods \<union> {(''CreateRenderer'', ''func() fyne.WidgetRenderer'')}"
    and "set canvas_methods \<subseteq> set (BaseWidget_methods h)"
  shows "implements (SimpleWidgetBase_methods h) (SimpleWidget_methods h)"
proof -
  have "m \<in> set SimpleWidgetBase_declared \<or>
        (m \<in> set (BaseWidget_methods h) \<and> fst m \<notin> fst ` set SimpleWidgetBase_declared)"
    if "m \<in> set (Widget_methods h)" for m
  proof (cases "m = (''CreateRenderer'', ''func() fyne.WidgetRenderer'')")
    case True
    then show ?thesis by (simp add: SimpleWidgetBase_declared_def)
  next
    case False
    with that assms(1) have c: "m \<in> set canvas_methods" by auto
    then have "m \<in> set (BaseWidget_methods h)" using assms(2) by auto
    moreover have "fst m \<notin> fst ` set SimpleWidgetBase_declared"
      using c by (auto simp: canvas_methods_def SimpleWidgetBase_declared_def Render_method_def)
    ultimately show ?thesis by simp
  qed
  then show ?thesis by (simp add: implements_iff)
qed

text \<open>
  Claim C3, as the code has it. With no delegate stored, \<^verbatim>\<open>super\<close> asserts the receiver
  itself to \<^verbatim>\<open>SimpleWidget\<close>: the type tested is \<^verbatim>\<open>*SimpleWidgetBase\<close>, whatever struct embeds
  the base and whatever that struct overrides. The base declares \<^verbatim>\<open>Render\<close> and
  \<^verbatim>\<open>CreateRenderer\<close> and is handed the other methods of \<^verbatim>\<open>fyne.Widget\<close> by the embedded
  \<^verbatim>\<open>BaseWidget\<close>, so its method set implements the interface, and then \<^verbatim>\<open>super\<close> returns the
  base, leaves the state as it was and does not panic with any fault; \<^verbatim>\<open>SetState\<close>, once
  its callback has returned with the delegate still unset, returns too, with its refresh
  sent to the base. No call of \<^verbatim>\<open>ExtendBaseWidget\<close> is needed for that.
\<close>

theorem super_unset_asserts_base:
  assumes "impl s = None"
    and "implements (SimpleWidgetBase_methods h) (SimpleWidget_methods h)"
  shows "super h s = Returned (Iface base_type (self s)) s \<and>
         (\<forall>e t. super h s \<noteq> Panicked e t) \<and>
         (f s = Returned () s1 \<and> impl s1 = None \<longrightarrow>
            SetState h (Some f) s =
              Returned () (s1\<lparr>trace := trace s1 @ [Refresh (Iface base_type (self s1))]\<rparr>))"
  using assms by (simp add: super_unset SetState_def invoke_def emit_def)

text \<open>The theorem at sample inputs.\<close>

theorem super_unset_asserts_base_witness:
  "impl fresh = None \<and>
   implements (SimpleWidgetBase_methods full_host) (SimpleWidget_methods full_host) \<and>
   super full_host fresh = Returned (Iface base_type 1) fresh \<and>
   bump fresh = Returned () (fresh\<lparr>props := 1\<rparr>) \<and>
   SetState full_host (Some bump) fresh =
     Returned () (fresh\<lparr>props := 1, trace := [Refresh (Iface base_type 1)]\<rparr>)"
proof -
  have h1: "impl fresh = None" by (simp add: fresh_def)
  have h2: "implements (SimpleWidgetBase_methods full_host) (SimpleWidget_methods full_host)"
    by (rule full_host_implements)
  have h3: "bump fresh = Returned () (fresh\<lparr>props := 1\<rparr>)"
    by (simp add: bump_def fresh_def)
  show ?thesis
    using h1 h2 h3
      super_unset_asserts_base [where f = bump and ?s1.0 = "fresh\<lparr>props := 1\<rparr>", OF h1 h2]
    by (simp add: fresh_def)
qed

text \<open>
  The claim as the specification words it, that some run of \<^verbatim>\<open>super\<close> with no delegate
  stored ends in the type-assertion fault, fails: on the host the source is built against,
  the run from the sample state returns the base, and no state with no delegate makes
  \<^verbatim>\<open>super\<close> panic with that fault.
\<close>

theorem super_type_assertion_fault_counterexample:
  "impl fresh = None \<and>
   super full_host fresh = Returned (Iface base_type 1) fresh \<and>
   \<not> (\<exists>s :: nat state. impl s = None \<and> (\<exists>t. super full_host s = Panicked TypeAssertion t))"
proof -
  have "super full_host s \<noteq> Panicked TypeAssertion t" if "impl s = None"
    for s t :: "nat state"
    using that by (simp add: super_unset full_host_implements)
  then show ?thesis
    by (auto simp: super_unset full_host_implements fresh_def)
qed

text \<open>
  Claim C5. Let the callback \<open>f\<close>, run in the state \<^verbatim>\<open>SetState\<close> was called in (no lock is
  taken before it), return leaving \<open>s1\<close>, whatever it changed, and let the delegate resolve
  to \<open>wdgt\<close> there. Then \<^verbatim>\<open>SetState(f)\<close> returns, and the state it leaves is \<open>s1\<close> with the one
  event \<open>Refresh wdgt\<close> appended: one more refresh notification than \<open>f\<close> left, after all
  of \<open>f\<close>'s events, and every locker held or free as \<open>f\<close> left it.
\<close>

theorem SetState_refreshes_once:
  assumes "f s = Returned () s1" and "super h s1 = Returned wdgt s2"
  shows "SetState h (Some f) s = Returned () (s1\<lparr>trace := trace s1 @ [Refresh wdgt]\<rparr>) \<and>
         refreshes (trace s1 @ [Refresh wdgt]) = refreshes (trace s1) @ [wdgt] \<and>
         (\<forall>m. held m (trace s1 @ [Refresh wdgt]) = held m (trace s1))"
proof -
  have "s2 = s1" using assms(2) by (rule super_Returned_state)
  then show ?thesis
    using assms by (simp add: SetState_def invoke_def emit_def refreshes_snoc held_snoc)
qed

text \<open>The theorem at sample inputs.\<close>

theorem SetState_refreshes_once_witness:
  "reregister fresh =
     Returned () (fresh\<lparr>impl := Some label, trace := [BaseExtend (Some label)]\<rparr>) \<and>
   super full_host (fresh\<lparr>impl := Some label, trace := [BaseExtend (Some label)]\<rparr>) =
     Returned label (fresh\<lparr>impl := Some label, trace := [BaseExtend (Some label)]\<rparr>) \<and>
   SetState full_host (Some reregister) fresh =
     Returned () (fresh\<lparr>impl := Some label,
                         trace := [BaseExtend (Some label), Refresh label]\<rparr>)"
proof -
  have h1: "reregister fresh =
     Returned () (fresh\<lparr>impl := Some label, trace := [BaseExtend (Some label)]\<rparr>)"
    by (simp add: reregister_def fresh_def ExtendBaseWidget_unset emit_def Lock_def Unlock_def)
  have h2: "super full_host (fresh\<lparr>impl := Some label, trace := [BaseExtend (Some label)]\<rparr>) =
     Returned label (fresh\<lparr>impl := Some label, trace := [BaseExtend (Some label)]\<rparr>)"
    by (simp add: super_registered)
  show ?thesis
    using h1 h2 SetState_refreshes_once [where f = reregister and s = fresh, OF h1 h2] by simp
qed

text \<open>
  Claim C6. \<^verbatim>\<open>SetStateSafe(m, f)\<close> records \<^verbatim>\<open>m.Lock()\<close> and runs \<open>f\<close> in the state so
  extended, in which \<open>m\<close> is held. When \<open>f\<close> returns leaving \<open>s1\<close> and the delegate resolves to \<open>wdgt\<close>, the
  call returns and leaves \<open>s1\<close> with the two events \<^verbatim>\<open>m.Unlock()\<close>, \<open>Refresh wdgt\<close> appended in
  that order: the refresh is appended to a trace in which \<open>m\<close> is not held. When \<open>f\<close> itself
  records no event, the events of the call are exactly lock, unlock, refresh.
\<close>

theorem SetStateSafe_sequence:
  assumes "f (emit (LockerLock m) s) = Returned () s1" and "super h s1 = Returned wdgt s2"
  shows "SetStateSafe h (Some m) (Some f) s =
           Returned () (s1\<lparr>trace := trace s1 @ [LockerUnlock m, Refresh wdgt]\<rparr>) \<and>
         held m (trace (emit (LockerLock m) s)) \<and>
         \<not> held m (trace s1 @ [LockerUnlock m]) \<and>
         (trace s1 = trace s @ [LockerLock m] \<longrightarrow>
            trace (after (SetStateSafe h (Some m) (Some f) s)) =
              trace s @ [LockerLock m, LockerUnlock m, Refresh wdgt])"
proof -
  have "super h (emit (LockerUnlock m) s1) = Returned wdgt (emit (LockerUnlock m) s1)"
    using assms(2) by (rule super_emit)
  then have "SetStateSafe h (Some m) (Some f) s =
           Returned () (s1\<lparr>trace := trace s1 @ [LockerUnlock m, Refresh wdgt]\<rparr>)"
    using assms(1) by (simp add: SetStateSafe_def invoke_def emit_def)
  then show ?thesis by (simp add: held_snoc)
qed

text \<open>The theorem at sample inputs.\<close>

theorem SetStateSafe_sequence_witness:
  "bump (emit (LockerLock mu) fresh) = Returned () (fresh\<lparr>props := 1, trace := [LockerLock mu]\<rparr>) \<and>
   super full_host (fresh\<lparr>props := 1, trace := [LockerLock mu]\<rparr>) =
     Returned (Iface base_type 1) (fresh\<lparr>props := 1, trace := [LockerLock mu]\<rparr>) \<and>
   SetStateSafe full_host (Some mu) (Some bump) fresh =
     Returned () (fresh\<lparr>props := 1,
        trace := [LockerLock mu, LockerUnlock mu, Refresh (Iface base_type 1)]\<rparr>)"
proof -
  have h1: "bump (emit (LockerLock mu) fresh) =
      Returned () (fresh\<lparr>props := 1, trace := [LockerLock mu]\<rparr>)"
    by (simp add: bump_def emit_def fresh_def)
  have h2: "super full_host (fresh\<lparr>props := 1, trace := [LockerLock mu]\<rparr>) =
     Returned (Iface base_type 1) (fresh\<lparr>props := 1, trace := [LockerLock mu]\<rparr>)"
    by (simp add: super_unset full_host_implements fresh_def)
  show ?thesis
    using h1 h2 SetStateSafe_sequence [where f = bump and s = fresh, OF h1 h2] by simp
qed

text \<open>
  Claim C7. Let \<^verbatim>\<open>super\<close> resolve to \<open>wdgt\<close>, and let the \<^verbatim>\<open>Render\<close> method of \<open>wdgt\<close>, run once in
  the state extended by the one event \<open>RenderCall wdgt\<close>, return the objects \<open>objs\<close> and the
  layout function \<open>layout\<close>, leaving \<open>s2\<close>. Then \<^verbatim>\<open>CreateRenderer\<close> is the call of the renderer
  constructor on \<open>wdgt\<close>, \<open>objs\<close> and \<open>layout\<close> in \<open>s2\<close>: it hands over what \<^verbatim>\<open>Render\<close> returned and
  returns what the constructor returns. This holds for every constructor.
\<close>

theorem CreateRenderer_delegates:
  assumes "super h s = Returned wdgt s1"
    and "Render_of ov wdgt (s\<lparr>trace := trace s @ [RenderCall wdgt]\<rparr>) = Returned (objs, layout) s2"
  shows "CreateRenderer h ov mk s = mk wdgt objs layout s2"
proof -
  have "s1 = s" using assms(1) by (rule super_Returned_state)
  then show ?thesis
    using assms by (simp add: CreateRenderer_def call_Render_def emit_def)
qed

text \<open>The theorem at sample inputs.\<close>

theorem CreateRenderer_delegates_witness:
  "super full_host (fresh\<lparr>impl := Some button\<rparr>) = Returned button (fresh\<lparr>impl := Some button\<rparr>) \<and>
   Render_of button_only button (fresh\<lparr>impl := Some button, trace := [RenderCall button]\<rparr>) =
     Returned ([label], \<lambda>size t. Returned () (t\<lparr>props := props t + 2\<rparr>))
       (fresh\<lparr>impl := Some button, trace := [RenderCall button]\<rparr>) \<and>
   CreateRenderer full_host button_only keep_args (fresh\<lparr>impl := Some button\<rparr>) =
     Returned (button, [label]) (fresh\<lparr>impl := Some button, trace := [RenderCall button]\<rparr>)"
proof -
  let ?s = "fresh\<lparr>impl := Some button\<rparr>"
  let ?l = "\<lambda>(size::Size) (t::nat state). (Returned () (t\<lparr>props := props t + 2\<rparr>) :: (unit, nat state) outcome)"
  have h1: "super full_host ?s = Returned button ?s"
    by (simp add: super_registered)
  have h2: "Render_of button_only button (?s\<lparr>trace := trace ?s @ [RenderCall button]\<rparr>) =
      Returned ([label], ?l) (fresh\<lparr>impl := Some button, trace := [RenderCall button]\<rparr>)"
    by (simp add: Render_of_def button_only_def button_def base_type_def button_Render_def
        fresh_def)
  show ?thesis
    using h1 CreateRenderer_delegates [OF h1 h2, of keep_args]
    by (simp add: keep_args_def Render_of_def button_only_def button_def base_type_def
        button_Render_def fresh_def)
qed

lemma ExtendBaseWidget_registrations:
  assumes "registrations (trace s) = (case impl s of None \<Rightarrow> [] | Some d \<Rightarrow> [d])"
  shows "registrations (trace (after (ExtendBaseWidget w s))) =
         (case impl (after (ExtendBaseWidget w s)) of None \<Rightarrow> [] | Some d \<Rightarrow> [d])"
proof (cases "impl s")
  case None
  then show ?thesis using assms
    by (simp add: ExtendBaseWidget_unset registrations_snoc)
next
  case (Some d)
  then show ?thesis using assms by (simp add: ExtendBaseWidget_set)
qed

lemma extend_all_registrations:
  "registrations (trace s) = (case impl s of None \<Rightarrow> [] | Some d \<Rightarrow> [d]) \<Longrightarrow>
   registrations (trace (extend_all ws s)) =
     (case impl (extend_all ws s) of None \<Rightarrow> [] | Some d \<Rightarrow> [d])"
proof (induction ws arbitrary: s)
  case Nil
  then show ?case by simp
next
  case (Cons w ws)
  then show ?case by (simp add: ExtendBaseWidget_registrations)
qed

text \<open>
  Claim C8. In a state with no delegate, \<^verbatim>\<open>ExtendBaseWidget(wid)\<close> first runs the host's
  \<^verbatim>\<open>BaseWidget.ExtendBaseWidget\<close> on \<open>wid\<close>, once, in the very state it was called in, where the
  delegate is still unset, and only then stores \<open>wid\<close>, into the state that call left; this
  holds whatever the host's registration does with the state it is given. With the
  registration recorded, the host calls of the trace grow by exactly \<open>wid\<close>. In a state with
  a delegate the call returns with the state as it was and the host's registration is not
  run at all, whatever it is. Hence over any row of calls from a state with no delegate
  and no registration, the delegates handed to the host are none while none is stored, and
  afterwards exactly the one stored. (A call with nil while none is stored hands the host
  nil.)
\<close>

theorem ExtendBaseWidget_forwards_once:
  "(impl s = None \<and> base_extend wid s = Returned () s1 \<longrightarrow>
      ExtendBaseWidget_with base_extend wid s =
        Returned () (s1\<lparr>impl := wid, propertyLock := Unlock (Lock (propertyLock s1))\<rparr>)) \<and>
   (impl s = None \<longrightarrow>
      impl (emit (BaseExtend wid) s) = None \<and>
      ExtendBaseWidget wid s =
        Returned () ((emit (BaseExtend wid) s)
                       \<lparr>impl := wid, propertyLock := Unlock (Lock (propertyLock s))\<rparr>) \<and>
      host_calls (trace (after (ExtendBaseWidget wid s))) = host_calls (trace s) @ [wid]) \<and>
   (impl s = Some d \<longrightarrow>
      ExtendBaseWidget_with base_extend wid s = Returned () s \<and>
      ExtendBaseWidget wid s = Returned () s \<and>
      host_calls (trace (after (ExtendBaseWidget wid s))) = host_calls (trace s)) \<and>
   (impl s = None \<and> registrations (trace s) = [] \<longrightarrow>
      registrations (trace (extend_all ws s)) =
        (case impl (extend_all ws s) of None \<Rightarrow> [] | Some d \<Rightarrow> [d]))"
proof -
  have a: "ExtendBaseWidget_with base_extend wid s =
        Returned () (s1\<lparr>impl := wid, propertyLock := Unlock (Lock (propertyLock s1))\<rparr>)"
    if "impl s = None" and "base_extend wid s = Returned () s1"
    using that by (rule ExtendBaseWidget_with_unset)
  have c: "registrations (trace (extend_all ws s)) =
        (case impl (extend_all ws s) of None \<Rightarrow> [] | Some d \<Rightarrow> [d])"
    if "impl s = None" and "registrations (trace s) = []"
    using that by (simp add: extend_all_registrations)
  show ?thesis
    using a c
    by (simp add: ExtendBaseWidget_unset ExtendBaseWidget_set ExtendBaseWidget_with_set
        host_calls_snoc)
qed

text \<open>The theorem at sample inputs.\<close>

theorem ExtendBaseWidget_forwards_once_witness:
  "impl fresh = None \<and> registrations (trace fresh) = [] \<and>
   BaseWidget_ExtendBaseWidget (Some button) fresh =
     Returned () (fresh\<lparr>trace := [BaseExtend (Some button)]\<rparr>) \<and>
   ExtendBaseWidget_with BaseWidget_ExtendBaseWidget (Some button) fresh =
     Returned () (fresh\<lparr>impl := Some button, trace := [BaseExtend (Some button)]\<rparr>) \<and>
   ExtendBaseWidget (Some button) fresh =
     Returned () (fresh\<lparr>impl := Some button, trace := [BaseExtend (Some button)]\<rparr>) \<and>
   impl (fresh\<lparr>impl := Some button, trace := [BaseExtend (Some button)]\<rparr>) = Some button \<and>
   ExtendBaseWidget (Some label) (fresh\<lparr>impl := Some button, trace := [BaseExtend (Some button)]\<rparr>) =
     Returned () (fresh\<lparr>impl := Some button, trace := [BaseExtend (Some button)]\<rparr>) \<and>
   trace (extend_all [None, Some button, Some label, None, Some button] fresh) =
     [BaseExtend None, BaseExtend (Some button)] \<and>
   registrations (trace (extend_all [None, Some button, Some label, None, Some button] fresh)) =
     [button] \<and>
   impl (extend_all [None, Some button, Some label, None, Some button] fresh) = Some button"
proof -
  let ?t = "fresh\<lparr>impl := Some button, trace := [BaseExtend (Some button)]\<rparr>"
  have h1: "impl fresh = None" by (simp add: fresh_def)
  have h2: "registrations (trace fresh) = []" by (simp add: fresh_def)
  have h3: "impl ?t = Some button" by simp
  have h4: "BaseWidget_ExtendBaseWidget (Some button) fresh =
      Returned () (fresh\<lparr>trace := [BaseExtend (Some button)]\<rparr>)"
    by (simp add: BaseWidget_ExtendBaseWidget_def emit_def fresh_def)
  have e: "impl (extend_all [None, Some button, Some label, None, Some button] fresh) = Some button
     \<and> trace (extend_all [None, Some button, Some label, None, Some button] fresh) =
     [BaseExtend None, BaseExtend (Some button)]"
    by (simp add: fresh_def ExtendBaseWidget_unset ExtendBaseWidget_set emit_def)
  show ?thesis
    using h1 h2 h3 h4 e
      ExtendBaseWidget_forwards_once [where s = fresh and wid = "Some button"
           and base_extend = BaseWidget_ExtendBaseWidget
           and ?s1.0 = "fresh\<lparr>trace := [BaseExtend (Some button)]\<rparr>"
           and ws = "[None, Some button, Some label, None, Some button]"]
      ExtendBaseWidget_forwards_once [where s = ?t and wid = "Some label" and d = button]
    by (simp add: fresh_def emit_def Lock_def Unlock_def)
qed

text \<open>
  Claim C9. When the callback panics inside \<^verbatim>\<open>SetStateSafe(m, f)\<close>, the call panics with the
  same fault and leaves the state the callback left: no \<^verbatim>\<open>m.Unlock()\<close> and no refresh is
  recorded after it, and \<open>m\<close> is still held unless the callback itself released it. When the
  callback panics inside \<^verbatim>\<open>SetState(f)\<close>, the call panics with the same fault and leaves the
  state the callback left, so no refresh is recorded.
\<close>

theorem mutator_panic_skips_unlock_and_refresh:
  "(f (emit (LockerLock m) s) = Panicked e s1 \<longrightarrow>
      SetStateSafe h (Some m) (Some f) s = Panicked e s1 \<and>
      ((\<exists>evs. trace s1 = trace s @ LockerLock m # evs \<and> LockerUnlock m \<notin> set evs) \<longrightarrow>
         held m (trace (after (SetStateSafe h (Some m) (Some f) s))))) \<and>
   (f s = Panicked e s1 \<longrightarrow> SetState h (Some f) s = Panicked e s1)"
proof -
  have "held m (trace s @ LockerLock m # evs)" if "LockerUnlock m \<notin> set evs" for evs
  proof -
    have "held m (trace s @ [LockerLock m])" by (simp add: held_snoc)
    then have "held m ((trace s @ [LockerLock m]) @ evs)"
      using that by (rule held_append_no_unlock)
    then show ?thesis by simp
  qed
  then show ?thesis
    by (auto simp: SetStateSafe_def SetState_def invoke_def)
qed

text \<open>The theorem at sample inputs.\<close>

theorem mutator_panic_skips_unlock_and_refresh_witness:
  "boom (emit (LockerLock mu) fresh) =
     Panicked (UserPanic ''boom'') (fresh\<lparr>props := 1, trace := [LockerLock mu]\<rparr>) \<and>
   SetStateSafe full_host (Some mu) (Some boom) fresh =
     Panicked (UserPanic ''boom'') (fresh\<lparr>props := 1, trace := [LockerLock mu]\<rparr>) \<and>
   held mu (trace (after (SetStateSafe full_host (Some mu) (Some boom) fresh))) \<and>
   boom fresh = Panicked (UserPanic ''boom'') (fresh\<lparr>props := 1\<rparr>) \<and>
   SetState full_host (Some boom) fresh = Panicked (UserPanic ''boom'') (fresh\<lparr>props := 1\<rparr>)"
proof -
  have h1: "boom (emit (LockerLock mu) fresh) =
     Panicked (UserPanic ''boom'') (fresh\<lparr>props := 1, trace := [LockerLock mu]\<rparr>)"
    by (simp add: boom_def emit_def fresh_def)
  have h2: "\<exists>evs. trace (fresh\<lparr>props := 1, trace := [LockerLock mu]\<rparr>) =
      trace fresh @ LockerLock mu # evs \<and> LockerUnlock mu \<notin> set evs"
    by (simp add: fresh_def)
  have h3: "boom fresh = Panicked (UserPanic ''boom'') (fresh\<lparr>props := 1\<rparr>)"
    by (simp add: boom_def fresh_def)
  show ?thesis
    using h1 h2 h3
      mutator_panic_skips_unlock_and_refresh [where f = boom and s = fresh and m = mu and e = "UserPanic ''boom''"
           and ?s1.0 = "fresh\<lparr>props := 1, trace := [LockerLock mu]\<rparr>" and h = full_host]
      mutator_panic_skips_unlock_and_refresh [where f = boom and s = fresh and m = mu and e = "UserPanic ''boom''"
           and ?s1.0 = "fresh\<lparr>props := 1\<rparr>" and h = full_host]
    by (simp add: fresh_def held_def)
qed

text \<open>
  Claim C10. With no delegate stored (and the base implementing \<^verbatim>\<open>SimpleWidget\<close>, so that
  \<^verbatim>\<open>super\<close> returns), \<^verbatim>\<open>CreateRenderer\<close> is the call of the renderer constructor on the base
  itself, the empty list of objects and a layout function that returns without changing
  the state, after the one event of the \<^verbatim>\<open>Render\<close> call. The \<^verbatim>\<open>Render\<close> that runs is the default
  one whatever the client overrides, since dispatch is on \<^verbatim>\<open>*SimpleWidgetBase\<close>.
\<close>

theorem CreateRenderer_default:
  assumes "impl s = None"
    and "implements (SimpleWidgetBase_methods h) (SimpleWidget_methods h)"
  shows "CreateRenderer h ov mk s =
           mk (Iface base_type (self s)) [] (\<lambda>size t. Returned () t)
              (s\<lparr>trace := trace s @ [RenderCall (Iface base_type (self s))]\<rparr>)"
  using assms
  by (simp add: CreateRenderer_def super_unset call_Render_def Render_of_def Render_def emit_def)

text \<open>The theorem at sample inputs.\<close>

theorem CreateRenderer_default_witness:
  "impl fresh = None \<and>
   implements (SimpleWidgetBase_methods full_host) (SimpleWidget_methods full_host) \<and>
   CreateRenderer full_host button_only keep_args fresh =
     Returned (Iface base_type 1, []) (fresh\<lparr>trace := [RenderCall (Iface base_type 1)]\<rparr>)"
proof -
  have h1: "impl fresh = None" by (simp add: fresh_def)
  have h2: "implements (SimpleWidgetBase_methods full_host) (SimpleWidget_methods full_host)"
    by (rule full_host_implements)
  show ?thesis
    using h1 h2 CreateRenderer_default [OF h1 h2, of button_only keep_args]
    by (simp add: keep_args_def fresh_def)
qed

end
